theory Spec2Isabelle
  imports Complex_Main "HOL-Library.AList" "HOL-Library.Multiset" "HOL-Library.Signed_Division"
begin

section \<open>The preference-matrix script \<open>assign_matrix.py\<close>\<close>

text \<open>
  The script reads a HotCRP preference table (and optionally an assignment table and a
  table of paper lengths), scales every raw score to an intensity between 0 and 100,
  optionally reorders papers and reviewers, and prints a LaTeX table.

  Conventions of the embedding.
  \<^item> A Python \<open>dict\<close> whose iteration order is used (\<open>papers\<close>, \<open>pc\<close>) is an association
    list in insertion order: \<open>d[k]\<close> is \<open>lookup (map_of d) k\<close>, \<open>k in d\<close> is
    \<open>map_of d k \<noteq> None\<close>, \<open>for k in d\<close> runs over \<open>map fst d\<close>. A \<open>dict\<close> that is only
    looked up is a map \<open>'k \<rightharpoonup> 'v\<close>.
  \<^item> Every exception the script can raise while it computes is a value \<open>Inl e\<close> of
    \<open>py_error + 'a\<close>.
  \<^item> A cell of a CSV row that the script passes to \<open>int()\<close> is a \<open>cell\<close>: the empty text,
    a text that \<open>int()\<close> reads as a number, or any other text.
  \<^item> Python's \<open>float\<close> is idealised. \<open>int(a / b)\<close> on integers is the exact quotient
    truncated toward zero; the correctly rounded float quotient truncates to the same
    integer as long as \<open>a\<close> is below \<open>2^53\<close> in absolute value. Distances and affinities
    are real numbers: the rounding of \<open>math.sqrt\<close>, of the products and of \<open>**\<close>, and the
    overflow of a long product of distances, are not modelled.
  \<^item> Reading the files and the command line is not modelled: a run starts from the rows
    of the tables and the options.
\<close>

subsection \<open>Errors and Python primitives\<close>

datatype py_error = KeyError | ValueError | ZeroDivisionError | IndexError

definition lookup :: "('k \<rightharpoonup> 'v) \<Rightarrow> 'k \<Rightarrow> py_error + 'v" where
  "lookup m k = (case m k of None \<Rightarrow> Inl KeyError | Some v \<Rightarrow> Inr v)"

datatype cell = Empty | Num int | Junk

text \<open>\<open>int(text)\<close>: \<open>ValueError\<close> on the empty text and on text that is not a number.\<close>

fun py_int :: "cell \<Rightarrow> py_error + int" where
  "py_int (Num n) = Inr n"
| "py_int Empty = Inl ValueError"
| "py_int Junk = Inl ValueError"

text \<open>The truth value of a text: non-empty.\<close>

fun truthy :: "cell \<Rightarrow> bool" where
  "truthy Empty = False"
| "truthy (Num n) = True"
| "truthy Junk = True"

text \<open>\<open>int(a / b)\<close> for integers \<open>a\<close>, \<open>b\<close>: true division, then truncation toward zero.\<close>

definition int_truediv :: "int \<Rightarrow> int \<Rightarrow> py_error + int" where
  "int_truediv a b = (if b = 0 then Inl ZeroDivisionError else Inr (a sdiv b))"

subsection \<open>Tables\<close>

record paper_entry =
  title :: string
  n_pages :: int

text \<open>
  An entry of \<open>pc\<close>. The keys \<open>'min'\<close> and \<open>'max'\<close> are absent (\<open>None\<close>) until the scaling
  bounds are computed.
\<close>

record pc_entry =
  num :: nat
  pc_email :: string
  pc_min :: "int option"
  pc_max :: "int option"

record tables =
  papers :: "(string \<times> paper_entry) list"
  pc :: "(string \<times> pc_entry) list"
  prefs :: "string \<rightharpoonup> (string \<rightharpoonup> int)"
  prefs_type :: "string \<rightharpoonup> (string \<rightharpoonup> string)"
  assigned :: "string \<rightharpoonup> (string \<rightharpoonup> int)"
  email :: "string \<rightharpoonup> string"

definition empty_tables :: tables where
  "empty_tables = \<lparr>papers = [], pc = [], prefs = Map.empty, prefs_type = Map.empty,
     assigned = Map.empty, email = Map.empty\<rparr>"

record pref_row =
  row_paper :: string
  row_title :: string
  row_first :: string
  row_last :: string
  row_email :: string
  row_topic_score :: cell
  row_preference :: cell
  row_conflict :: string

subsection \<open>Loading the preference table\<close>

definition add_paper :: "tables \<Rightarrow> pref_row \<Rightarrow> tables" where
  "add_paper s line =
     (if map_of (papers s) (row_paper line) = None
      then s\<lparr>papers := papers s @ [(row_paper line, \<lparr>title = row_title line, n_pages = 20\<rparr>)],
             prefs := (prefs s)(row_paper line \<mapsto> Map.empty),
             prefs_type := (prefs_type s)(row_paper line \<mapsto> Map.empty),
             assigned := (assigned s)(row_paper line \<mapsto> Map.empty)\<rparr>
      else s)"

definition row_name :: "pref_row \<Rightarrow> string" where
  "row_name line = row_first line @ '' '' @ row_last line"

text \<open>The new entry is in \<open>pc\<close> when \<open>len(pc)\<close> is read, so \<open>num\<close> counts it.\<close>

definition add_pc :: "tables \<Rightarrow> pref_row \<Rightarrow> tables" where
  "add_pc s line =
     (if map_of (pc s) (row_name line) = None
      then s\<lparr>pc := pc s @ [(row_name line,
                \<lparr>num = length (pc s) + 1, pc_email = row_email line, pc_min = None, pc_max = None\<rparr>)],
             email := (email s)(row_email line \<mapsto> row_name line)\<rparr>
      else s)"

text \<open>
  The score and its kind, as the three assignments of the loop body leave them: the topic
  score, overwritten by a non-empty preference, overwritten by a conflict.
\<close>

definition row_score :: "pref_row \<Rightarrow> cell \<times> string" where
  "row_score line =
     (let st0 = (row_topic_score line, ''T'');
          st1 = (if truthy (row_preference line) then (row_preference line, ''P'') else st0);
          st2 = (if row_conflict line = ''conflict'' then (Num (- 100), ''C'') else st1)
      in st2)"

definition pref_line :: "tables \<Rightarrow> pref_row \<Rightarrow> py_error + tables" where
  "pref_line s0 line =
     (let s = add_pc (add_paper s0 line) line;
          p = row_paper line;
          name = row_name line;
          (score, kind) = row_score line
      in case lookup (prefs_type s) p of Inl e \<Rightarrow> Inl e | Inr ty \<Rightarrow>
         (case py_int score of Inl e \<Rightarrow> Inl e | Inr v \<Rightarrow>
          (case lookup (prefs s) p of Inl e \<Rightarrow> Inl e | Inr pr \<Rightarrow>
             Inr (s\<lparr>prefs_type := (prefs_type s)(p \<mapsto> ty(name \<mapsto> kind)),
                    prefs := (prefs s)(p \<mapsto> pr(name \<mapsto> v))\<rparr>))))"

fun load_prefs :: "tables \<Rightarrow> pref_row list \<Rightarrow> py_error + tables" where
  "load_prefs s [] = Inr s"
| "load_prefs s (line # rest) =
     (case pref_line s line of Inl e \<Rightarrow> Inl e | Inr s' \<Rightarrow> load_prefs s' rest)"

subsection \<open>Scaling bounds\<close>

text \<open>The inner loop of the adaptive mode: one paper's contribution to \<open>(min, max)\<close>.\<close>

definition bound_step :: "tables \<Rightarrow> string \<Rightarrow> int \<times> int \<Rightarrow> string \<Rightarrow> py_error + int \<times> int" where
  "bound_step s name mm p =
     (case lookup (prefs s) p of Inl e \<Rightarrow> Inl e | Inr pr \<Rightarrow>
        (case pr name of None \<Rightarrow> Inr mm
         | Some score \<Rightarrow>
            if score > - 100
            then (let mx = (if score > snd mm then score else snd mm);
                      mn = (if score < fst mm then score else fst mm)
                  in Inr (mn, mx))
            else Inr mm))"

fun bound_loop :: "tables \<Rightarrow> string \<Rightarrow> int \<times> int \<Rightarrow> string list \<Rightarrow> py_error + int \<times> int" where
  "bound_loop s name mm [] = Inr mm"
| "bound_loop s name mm (p # ps) =
     (case bound_step s name mm p of Inl e \<Rightarrow> Inl e | Inr mm' \<Rightarrow> bound_loop s name mm' ps)"

definition name_bounds :: "bool \<Rightarrow> tables \<Rightarrow> string \<Rightarrow> py_error + int \<times> int" where
  "name_bounds opt_scale s name =
     (if opt_scale then bound_loop s name (0, 0) (map fst (papers s)) else Inr (- 20, 20))"

definition set_minmax :: "string \<Rightarrow> int \<times> int \<Rightarrow> (string \<times> pc_entry) list \<Rightarrow> (string \<times> pc_entry) list" where
  "set_minmax name mm al =
     AList.map_entry name (\<lambda>e. e\<lparr>pc_min := Some (fst mm), pc_max := Some (snd mm)\<rparr>) al"

fun bounds_loop :: "bool \<Rightarrow> tables \<Rightarrow> string list \<Rightarrow> py_error + tables" where
  "bounds_loop opt_scale s [] = Inr s"
| "bounds_loop opt_scale s (name # names) =
     (case name_bounds opt_scale s name of Inl e \<Rightarrow> Inl e
      | Inr mm \<Rightarrow> bounds_loop opt_scale (s\<lparr>pc := set_minmax name mm (pc s)\<rparr>) names)"

definition compute_bounds :: "bool \<Rightarrow> tables \<Rightarrow> py_error + tables" where
  "compute_bounds opt_scale s = bounds_loop opt_scale s (map fst (pc s))"

subsection \<open>Scaled intensities\<close>

text \<open>
  The value stored in \<open>prefs_scaled[p][name]\<close> for a raw score and the reviewer's bounds:
  \<open>int(100*(raw-min)/(max-min))\<close>, then cut at 100 and at 0.
\<close>

definition scale_score :: "int \<Rightarrow> int \<Rightarrow> int \<Rightarrow> py_error + int" where
  "scale_score raw mn mx =
     (case int_truediv (100 * (raw - mn)) (mx - mn) of Inl e \<Rightarrow> Inl e
      | Inr v \<Rightarrow>
          (let v1 = (if v > 100 then 100 else v);
               v2 = (if v1 < 0 then 0 else v1)
           in Inr v2))"

definition scaled_cell :: "tables \<Rightarrow> string \<Rightarrow> string \<Rightarrow> (string \<rightharpoonup> int) \<Rightarrow> py_error + (string \<rightharpoonup> int)" where
  "scaled_cell s p name row =
     (case lookup (prefs s) p of Inl e \<Rightarrow> Inl e | Inr pr \<Rightarrow>
        (case pr name of None \<Rightarrow> Inr row
         | Some raw \<Rightarrow>
            if raw > - 100
            then (case lookup (map_of (pc s)) name of Inl e \<Rightarrow> Inl e | Inr ent \<Rightarrow>
                  (case lookup pc_min ent of Inl e \<Rightarrow> Inl e | Inr mn \<Rightarrow>
                   (case lookup pc_max ent of Inl e \<Rightarrow> Inl e | Inr mx \<Rightarrow>
                    (case scale_score raw mn mx of Inl e \<Rightarrow> Inl e
                     | Inr v \<Rightarrow> Inr (row(name \<mapsto> v))))))
            else Inr row))"

fun scaled_row :: "tables \<Rightarrow> string \<Rightarrow> (string \<rightharpoonup> int) \<Rightarrow> string list \<Rightarrow> py_error + (string \<rightharpoonup> int)" where
  "scaled_row s p row [] = Inr row"
| "scaled_row s p row (name # names) =
     (case scaled_cell s p name row of Inl e \<Rightarrow> Inl e | Inr row' \<Rightarrow> scaled_row s p row' names)"

fun scaled_loop :: "tables \<Rightarrow> (string \<rightharpoonup> (string \<rightharpoonup> int)) \<Rightarrow> string list \<Rightarrow> py_error + (string \<rightharpoonup> (string \<rightharpoonup> int))" where
  "scaled_loop s ps [] = Inr ps"
| "scaled_loop s ps (p # rest) =
     (case scaled_row s p Map.empty (map fst (pc s)) of Inl e \<Rightarrow> Inl e
      | Inr row \<Rightarrow> scaled_loop s (ps(p \<mapsto> row)) rest)"

definition prefs_scaled :: "tables \<Rightarrow> py_error + (string \<rightharpoonup> (string \<rightharpoonup> int))" where
  "prefs_scaled s = scaled_loop s Map.empty (map fst (papers s))"

subsection \<open>Paper lengths and assignments\<close>

record length_row =
  row_ID :: string
  row_Pages :: cell

text \<open>\<open>papers[line['ID']]['n_pages'] = int(line['Pages'])\<close>: the right-hand side first.\<close>

definition length_line :: "tables \<Rightarrow> length_row \<Rightarrow> py_error + tables" where
  "length_line s line =
     (case py_int (row_Pages line) of Inl e \<Rightarrow> Inl e | Inr n \<Rightarrow>
      (case lookup (map_of (papers s)) (row_ID line) of Inl e \<Rightarrow> Inl e | Inr ent \<Rightarrow>
         Inr (s\<lparr>papers := AList.update (row_ID line) (ent\<lparr>n_pages := n\<rparr>) (papers s)\<rparr>)))"

fun load_lengths :: "tables \<Rightarrow> length_row list \<Rightarrow> py_error + tables" where
  "load_lengths s [] = Inr s"
| "load_lengths s (line # rest) =
     (case length_line s line of Inl e \<Rightarrow> Inl e | Inr s' \<Rightarrow> load_lengths s' rest)"

record assign_row =
  row_action :: string
  arow_paper :: string
  arow_email :: string

text \<open>\<open>assigned[line['paper']][email[line['email']]] = 1\<close> for a row whose action is \<open>primary\<close>.\<close>

definition assign_line :: "tables \<Rightarrow> assign_row \<Rightarrow> py_error + tables" where
  "assign_line s line =
     (if row_action line = ''primary''
      then (case lookup (assigned s) (arow_paper line) of Inl e \<Rightarrow> Inl e | Inr a \<Rightarrow>
            (case lookup (email s) (arow_email line) of Inl e \<Rightarrow> Inl e | Inr name \<Rightarrow>
               Inr (s\<lparr>assigned := (assigned s)(arow_paper line \<mapsto> a(name \<mapsto> 1))\<rparr>)))
      else Inr s)"

fun load_assign :: "tables \<Rightarrow> assign_row list \<Rightarrow> py_error + tables" where
  "load_assign s [] = Inr s"
| "load_assign s (line # rest) =
     (case assign_line s line of Inl e \<Rightarrow> Inl e | Inr s' \<Rightarrow> load_assign s' rest)"

subsection \<open>Ordering the papers\<close>

type_synonym scaled = "string \<rightharpoonup> (string \<rightharpoonup> int)"

text \<open>
  \<open>paper_dist\<close>: the loop over \<open>pc\<close> adds the squared difference of the two scaled scores
  to \<open>s\<close> and counts the reviewer in \<open>t\<close> when both papers have a scaled score; the result is
  \<open>math.sqrt(s)/math.sqrt(t)\<close>, a division by zero when \<open>t = 0\<close>. The memoisation of
  \<open>functools.cache\<close> does not change the value and is left out.
\<close>

definition dist_step :: "scaled \<Rightarrow> string \<Rightarrow> string \<Rightarrow> int \<times> nat \<Rightarrow> string \<Rightarrow> py_error + int \<times> nat" where
  "dist_step ps p1 p2 st name =
     (case lookup ps p1 of Inl e \<Rightarrow> Inl e | Inr r1 \<Rightarrow>
        (case r1 name of None \<Rightarrow> Inr st
         | Some a \<Rightarrow>
            (case lookup ps p2 of Inl e \<Rightarrow> Inl e | Inr r2 \<Rightarrow>
               (case r2 name of None \<Rightarrow> Inr st
                | Some b \<Rightarrow> Inr (fst st + (a - b)\<^sup>2, snd st + 1)))))"

fun dist_loop :: "scaled \<Rightarrow> string \<Rightarrow> string \<Rightarrow> int \<times> nat \<Rightarrow> string list \<Rightarrow> py_error + int \<times> nat" where
  "dist_loop ps p1 p2 st [] = Inr st"
| "dist_loop ps p1 p2 st (name # names) =
     (case dist_step ps p1 p2 st name of Inl e \<Rightarrow> Inl e
      | Inr st' \<Rightarrow> dist_loop ps p1 p2 st' names)"

definition paper_dist :: "scaled \<Rightarrow> string list \<Rightarrow> string \<Rightarrow> string \<Rightarrow> py_error + real" where
  "paper_dist ps names p1 p2 =
     (case dist_loop ps p1 p2 (0, 0) names of Inl e \<Rightarrow> Inl e
      | Inr st \<Rightarrow>
          if snd st = 0 then Inl ZeroDivisionError
          else Inr (sqrt (real_of_int (fst st)) / sqrt (real (snd st))))"

text \<open>\<open>papers_dist\<close>: the product of the distances over all pairs, to the power \<open>1/t\<close>.\<close>

fun prod_loop :: "scaled \<Rightarrow> string list \<Rightarrow> real \<times> nat \<Rightarrow> (string \<times> string) list \<Rightarrow> py_error + real \<times> nat" where
  "prod_loop ps names pt [] = Inr pt"
| "prod_loop ps names pt ((p1, p2) # rest) =
     (case paper_dist ps names p1 p2 of Inl e \<Rightarrow> Inl e
      | Inr d \<Rightarrow> prod_loop ps names (fst pt * d, snd pt + 1) rest)"

definition papers_dist :: "scaled \<Rightarrow> string list \<Rightarrow> string list \<Rightarrow> string list \<Rightarrow> py_error + real" where
  "papers_dist ps names l1 l2 =
     (case prod_loop ps names (1, 0) (List.product l1 l2) of Inl e \<Rightarrow> Inl e
      | Inr pt \<Rightarrow>
          if snd pt = 0 then Inl ZeroDivisionError
          else Inr (fst pt powr (1 / real (snd pt))))"

text \<open>
  The two nested \<open>for\<close> loops of one round: \<open>best\<close> starts at \<open>(0, 1)\<close> and moves to \<open>(i, j)\<close>
  when the distance of the groups \<open>i\<close> and \<open>j\<close> is strictly smaller than the distance of
  the current best pair.
\<close>

definition index_pairs :: "nat \<Rightarrow> (nat \<times> nat) list" where
  "index_pairs n = concat (map (\<lambda>i. map (\<lambda>j. (i, j)) [i + 1..<n]) [0..<n])"

fun scan :: "scaled \<Rightarrow> string list \<Rightarrow> string list list \<Rightarrow> nat \<times> nat \<Rightarrow> (nat \<times> nat) list \<Rightarrow> py_error + nat \<times> nat" where
  "scan ps names gs best [] = Inr best"
| "scan ps names gs best ((i, j) # rest) =
     (case papers_dist ps names (gs ! i) (gs ! j) of Inl e \<Rightarrow> Inl e | Inr a \<Rightarrow>
      (case papers_dist ps names (gs ! fst best) (gs ! snd best) of Inl e \<Rightarrow> Inl e
       | Inr b \<Rightarrow> scan ps names gs (if a < b then (i, j) else best) rest))"

definition find_best :: "scaled \<Rightarrow> string list \<Rightarrow> string list list \<Rightarrow> py_error + nat \<times> nat" where
  "find_best ps names gs = scan ps names gs (0, 1) (index_pairs (length gs))"

text \<open>
  \<open>sorted_papers[:b0] + [sorted_papers[b0] + sorted_papers[b1]] + sorted_papers[b0+1:b1] +
  sorted_papers[b1+1:]\<close>
\<close>

definition merge_groups :: "string list list \<Rightarrow> nat \<times> nat \<Rightarrow> string list list" where
  "merge_groups gs best =
     take (fst best) gs @ [gs ! fst best @ gs ! snd best] @
     take (snd best - (fst best + 1)) (drop (fst best + 1) gs) @ drop (snd best + 1) gs"

text \<open>
  The pair the scan returns is the start pair or one of the pairs it visits, so merging
  it makes the list of groups shorter by one: the loop below terminates.
\<close>

lemma set_index_pairs: "set (index_pairs n) = {(i, j). i < j \<and> j < n}"
proof -
  have "(a, b) \<in> set (index_pairs n) \<longleftrightarrow> a < b \<and> b < n" for a b
  proof
    assume "(a, b) \<in> set (index_pairs n)"
    then show "a < b \<and> b < n" by (auto simp: index_pairs_def)
  next
    assume ab: "a < b \<and> b < n"
    have "set (index_pairs n) = (\<Union>i\<in>{0..<n}. (\<lambda>j. (i, j)) ` {i + 1..<n})"
      by (simp add: index_pairs_def)
    moreover have "a \<in> {0..<n}" and "(a, b) \<in> (\<lambda>j. (a, j)) ` {a + 1..<n}"
      using ab by auto
    ultimately show "(a, b) \<in> set (index_pairs n)" by blast
  qed
  then show ?thesis by auto
qed

lemma scan_result:
  "scan ps names gs best pairs = Inr r \<Longrightarrow> r = best \<or> r \<in> set pairs"
proof (induction pairs arbitrary: best)
  case Nil
  then show ?case by simp
next
  case (Cons ij pairs)
  obtain i j where ij: "ij = (i, j)" by (cases ij)
  from Cons.prems ij
  have "scan ps names gs (i, j) pairs = Inr r \<or> scan ps names gs best pairs = Inr r"
    by (auto split: sum.splits if_splits)
  then show ?case
  proof
    assume "scan ps names gs (i, j) pairs = Inr r"
    from Cons.IH [OF this] ij show ?thesis by auto
  next
    assume "scan ps names gs best pairs = Inr r"
    from Cons.IH [OF this] show ?thesis by auto
  qed
qed

lemma find_best_range:
  assumes "find_best ps names gs = Inr best" and "1 < length gs"
  shows "fst best < snd best \<and> snd best < length gs"
proof -
  from assms(1) have "best = (0, 1) \<or> best \<in> set (index_pairs (length gs))"
    unfolding find_best_def by (rule scan_result)
  with assms(2) show ?thesis by (auto simp: set_index_pairs)
qed

lemma length_merge_groups:
  "fst best < snd best \<Longrightarrow> snd best < length gs \<Longrightarrow>
   Suc (length (merge_groups gs best)) = length gs"
  unfolding merge_groups_def by simp

text \<open>The \<open>while len(sorted_papers) > 1\<close> loop.\<close>

function cluster :: "scaled \<Rightarrow> string list \<Rightarrow> string list list \<Rightarrow> py_error + string list list" where
  "cluster ps names gs =
     (if 1 < length gs
      then (case find_best ps names gs of Inl e \<Rightarrow> Inl e
            | Inr best \<Rightarrow> cluster ps names (merge_groups gs best))
      else Inr gs)"
  by pat_completeness auto
termination
proof (relation "measure (\<lambda>(ps, names, gs). length gs)")
  show "wf (measure (\<lambda>(ps, names, gs). length gs))" by simp
next
  fix ps :: scaled and names :: "string list" and gs :: "string list list" and best :: "nat \<times> nat"
  assume "1 < length gs" and "find_best ps names gs = Inr best"
  then have "fst best < snd best \<and> snd best < length gs"
    using find_best_range by blast
  then have "Suc (length (merge_groups gs best)) = length gs"
    using length_merge_groups by blast
  then show "((ps, names, merge_groups gs best), (ps, names, gs))
      \<in> measure (\<lambda>(ps, names, gs). length gs)"
    by simp
qed

declare cluster.simps [simp del]

text \<open>
  The paper order: singleton groups \<open>[[p] for p in papers]\<close>, the loop, then
  \<open>sorted_papers[0]\<close>, an \<open>IndexError\<close> when there is no paper at all.
\<close>

definition sort_papers :: "scaled \<Rightarrow> string list \<Rightarrow> string list \<Rightarrow> py_error + string list" where
  "sort_papers ps names paper_ids =
     (case cluster ps names (map (\<lambda>p. [p]) paper_ids) of Inl e \<Rightarrow> Inl e
      | Inr gs \<Rightarrow> (case gs of [] \<Rightarrow> Inl IndexError | g # rest \<Rightarrow> Inr g))"

subsection \<open>Ordering the reviewers\<close>

definition aff_step :: "scaled \<Rightarrow> string \<Rightarrow> int \<times> int \<Rightarrow> nat \<times> string \<Rightarrow> py_error + int \<times> int" where
  "aff_step ps name st ip =
     (case lookup ps (snd ip) of Inl e \<Rightarrow> Inl e | Inr row \<Rightarrow>
        (case row name of None \<Rightarrow> Inr st
         | Some v \<Rightarrow> Inr (fst st + v * int (fst ip), snd st + v)))"

fun aff_loop :: "scaled \<Rightarrow> string \<Rightarrow> int \<times> int \<Rightarrow> (nat \<times> string) list \<Rightarrow> py_error + int \<times> int" where
  "aff_loop ps name st [] = Inr st"
| "aff_loop ps name st (ip # rest) =
     (case aff_step ps name st ip of Inl e \<Rightarrow> Inl e | Inr st' \<Rightarrow> aff_loop ps name st' rest)"

definition affinity :: "scaled \<Rightarrow> string list \<Rightarrow> string \<Rightarrow> py_error + real" where
  "affinity ps sorted_papers name =
     (case aff_loop ps name (0, 0) (enumerate 0 sorted_papers) of Inl e \<Rightarrow> Inl e
      | Inr st \<Rightarrow>
          if snd st > 0 then Inr (real_of_int (fst st) / real_of_int (snd st)) else Inr (- 1))"

text \<open>
  \<open>sorted(pc, key=affinity)\<close>: the key of every name is computed once, in the order of
  \<open>pc\<close>; the sort is stable and ascending.
\<close>

fun keys_loop :: "scaled \<Rightarrow> string list \<Rightarrow> string list \<Rightarrow> py_error + (string \<times> real) list" where
  "keys_loop ps sorted_papers [] = Inr []"
| "keys_loop ps sorted_papers (name # names) =
     (case affinity ps sorted_papers name of Inl e \<Rightarrow> Inl e | Inr k \<Rightarrow>
      (case keys_loop ps sorted_papers names of Inl e \<Rightarrow> Inl e
       | Inr ks \<Rightarrow> Inr ((name, k) # ks)))"

definition sort_pc :: "scaled \<Rightarrow> string list \<Rightarrow> string list \<Rightarrow> py_error + string list" where
  "sort_pc ps sorted_papers names =
     (case keys_loop ps sorted_papers names of Inl e \<Rightarrow> Inl e
      | Inr ks \<Rightarrow> Inr (map fst (sort_key snd ks)))"

subsection \<open>Escaping text for LaTeX\<close>

definition bslash :: char where
  "bslash = CHR 0x5C"

text \<open>The dictionary \<open>conv\<close> of \<open>latex_encode\<close>, in the order it is written.\<close>

definition conv :: "(string \<times> string) list" where
  "conv =
     [(''&'', bslash # ''&''),
      (''%'', bslash # ''%''),
      (''$'', bslash # ''$''),
      (''#'', bslash # ''#''),
      (''_'', bslash # ''_''),
      (''{'', bslash # ''{''),
      (''}'', bslash # ''}''),
      (''~'', bslash # ''textasciitilde{}''),
      (''^'', bslash # ''^{}''),
      ([bslash], bslash # ''textbackslash{}''),
      (''<'', bslash # ''textless{}''),
      (''>'', bslash # ''textgreater{}'')]"

text \<open>
  The regular expression is the alternation of the escaped keys, sorted by descending
  length (\<open>sorted\<close> is stable). An alternation takes the first alternative that matches at
  the current position.
\<close>

definition alternatives :: "(string \<times> string) list \<Rightarrow> (string \<times> string) list" where
  "alternatives cv = sort_key (\<lambda>kv. - int (length (fst kv))) cv"

fun match_at :: "(string \<times> string) list \<Rightarrow> string \<Rightarrow> (string \<times> string) option" where
  "match_at [] text = None"
| "match_at (kv # alts) text =
     (if take (length (fst kv)) text = fst kv then Some kv else match_at alts text)"

text \<open>
  \<open>regex.sub\<close>: one pass from left to right; a match is replaced by its entry of \<open>conv\<close>
  and the scan goes on after the match, a character that starts no match is copied. No
  key is empty, so a match consumes at least one character.
\<close>

fun regex_sub :: "(string \<times> string) list \<Rightarrow> string \<Rightarrow> string" where
  "regex_sub alts [] = []"
| "regex_sub alts (c # cs) =
     (case match_at alts (c # cs) of
        None \<Rightarrow> c # regex_sub alts cs
      | Some kv \<Rightarrow> snd kv @ regex_sub alts (drop (length (fst kv) - 1) cs))"

definition latex_encode :: "string \<Rightarrow> string" where
  "latex_encode text = regex_sub (alternatives conv) text"

subsection \<open>Cells\<close>

text \<open>\<open>str(n)\<close> for an integer.\<close>

fun str_nat :: "nat \<Rightarrow> string" where
  "str_nat n =
     (if n < 10 then [''0123456789'' ! n]
      else str_nat (n div 10) @ [''0123456789'' ! (n mod 10)])"

definition str_int :: "int \<Rightarrow> string" where
  "str_int i = (if i < 0 then CHR ''-'' # str_nat (nat (- i)) else str_nat (nat i))"

definition pretty :: "tables \<Rightarrow> scaled \<Rightarrow> string \<Rightarrow> string \<Rightarrow> py_error + string" where
  "pretty s ps p name =
     (case lookup (assigned s) p of Inl e \<Rightarrow> Inl e | Inr asg \<Rightarrow>
      (let a = (if asg name \<noteq> None then ''A'' else '''') in
       (case lookup (prefs s) p of Inl e \<Rightarrow> Inl e | Inr pr \<Rightarrow>
        (case pr name of
           None \<Rightarrow> Inr (bslash # ''Prate'' @ a @ ''{50}{?}'')
         | Some raw \<Rightarrow>
            (case lookup (prefs_type s) p of Inl e \<Rightarrow> Inl e | Inr ty \<Rightarrow>
             (case lookup ty name of Inl e \<Rightarrow> Inl e | Inr kind \<Rightarrow>
                if kind = ''C'' then Inr (bslash # ''Prate'' @ a @ ''{-100}{C}'')
                else if raw = - 100 then Inr (bslash # ''Prate'' @ a @ ''{-100}{-100}'')
                else (case lookup ps p of Inl e \<Rightarrow> Inl e | Inr row \<Rightarrow>
                      (case lookup row name of Inl e \<Rightarrow> Inl e | Inr v \<Rightarrow>
                         Inr (bslash # kind @ ''rate'' @ a @ ''{'' @ str_int v @ ''}{'' @
                              kind @ str_int raw @ ''}'')))))))))"

subsection \<open>Printing\<close>

text \<open>
  What the script prints, in order. The three fixed raw strings (the preamble up to
  \<open>\newif\ifcolor\<close>, the macro definitions up to the opening of the \<open>tabular\<close>, and the
  footer) are \<open>Preamble\<close>, \<open>Macros\<close> and \<open>Footer\<close>; every other \<open>print\<close> is the text it
  prints.
\<close>

datatype chunk = Preamble | Macros | Footer | Text string

type_synonym printed = "chunk list \<times> py_error option"

fun pages_loop :: "tables \<Rightarrow> string \<Rightarrow> int \<Rightarrow> string list \<Rightarrow> py_error + int" where
  "pages_loop s name t [] = Inr t"
| "pages_loop s name t (p # rest) =
     (case lookup (assigned s) p of Inl e \<Rightarrow> Inl e | Inr asg \<Rightarrow>
        if asg name \<noteq> None
        then (case lookup (map_of (papers s)) p of Inl e \<Rightarrow> Inl e
              | Inr ent \<Rightarrow> pages_loop s name (t + n_pages ent) rest)
        else pages_loop s name t rest)"

definition pc_cell :: "bool \<Rightarrow> tables \<Rightarrow> string \<Rightarrow> py_error + string" where
  "pc_cell has_lengths s name =
     (case (if has_lengths
            then (case pages_loop s name 0 (map fst (papers s)) of Inl e \<Rightarrow> Inl e
                  | Inr t \<Rightarrow> Inr (bslash # ''pp{'' @ str_int t @ ''} ''))
            else Inr '''') of
        Inl e \<Rightarrow> Inl e
      | Inr pages \<Rightarrow> Inr ('' & '' @ bslash # ''rot{'' @ pages @ latex_encode name @ ''}''))"

fun print_pc :: "bool \<Rightarrow> tables \<Rightarrow> chunk list \<Rightarrow> string list \<Rightarrow> printed" where
  "print_pc has_lengths s out [] = (out, None)"
| "print_pc has_lengths s out (name # names) =
     (case pc_cell has_lengths s name of Inl e \<Rightarrow> (out, Some e)
      | Inr txt \<Rightarrow> print_pc has_lengths s (out @ [Text txt]) names)"

definition row_head :: "bool \<Rightarrow> tables \<Rightarrow> string \<Rightarrow> py_error + string" where
  "row_head has_lengths s p =
     (case lookup (map_of (papers s)) p of Inl e \<Rightarrow> Inl e
      | Inr ent \<Rightarrow>
          Inr (bslash # ''eqmakebox[nn][l]{'' @ p @ ''.} '' @ bslash # ''trunc{'' @
               (if has_lengths then bslash # ''pp{'' @ str_int (n_pages ent) @ ''} '' else '''') @
               latex_encode (title ent) @ ''}''))"

fun print_cells :: "tables \<Rightarrow> scaled \<Rightarrow> string \<Rightarrow> chunk list \<Rightarrow> string list \<Rightarrow> printed" where
  "print_cells s ps p out [] = (out, None)"
| "print_cells s ps p out (name # names) =
     (case pretty s ps p name of Inl e \<Rightarrow> (out, Some e)
      | Inr txt \<Rightarrow> print_cells s ps p (out @ [Text ('' & '' @ txt)]) names)"

fun print_rows :: "bool \<Rightarrow> tables \<Rightarrow> scaled \<Rightarrow> string list \<Rightarrow> chunk list \<Rightarrow> string list \<Rightarrow> printed" where
  "print_rows has_lengths s ps sorted_pc out [] = (out, None)"
| "print_rows has_lengths s ps sorted_pc out (p # rest) =
     (case row_head has_lengths s p of Inl e \<Rightarrow> (out, Some e)
      | Inr h \<Rightarrow>
         (case print_cells s ps p (out @ [Text h]) sorted_pc of
            (out', Some e) \<Rightarrow> (out', Some e)
          | (out', None) \<Rightarrow>
              print_rows has_lengths s ps sorted_pc
                (out' @ [Text ('' & '' @ p @ '' '' @ [bslash, bslash] @ '' '' @ bslash # ''hline'')])
                rest))"

subsection \<open>The whole run\<close>

record options =
  opt_black :: bool
  opt_scale :: bool
  opt_order :: bool

text \<open>The header is printed before any table is read.\<close>

definition header :: "options \<Rightarrow> chunk list" where
  "header opts =
     [Preamble,
      Text (if opt_black opts then bslash # ''colorfalse'' else bslash # ''colortrue''),
      Macros]"

definition load_all :: "pref_row list \<Rightarrow> length_row list option \<Rightarrow> assign_row list option \<Rightarrow> py_error + tables" where
  "load_all pref_file lengths_file assign_file =
     (case load_prefs empty_tables pref_file of Inl e \<Rightarrow> Inl e | Inr s1 \<Rightarrow>
      (case (case lengths_file of None \<Rightarrow> Inr s1 | Some rows \<Rightarrow> load_lengths s1 rows) of
         Inl e \<Rightarrow> Inl e
       | Inr s2 \<Rightarrow> (case assign_file of None \<Rightarrow> Inr s2 | Some rows \<Rightarrow> load_assign s2 rows)))"

definition order :: "bool \<Rightarrow> tables \<Rightarrow> scaled \<Rightarrow> py_error + string list \<times> string list" where
  "order reorder s ps =
     (if reorder
      then (case sort_papers ps (map fst (pc s)) (map fst (papers s)) of Inl e \<Rightarrow> Inl e
            | Inr sorted_papers \<Rightarrow>
               (case sort_pc ps sorted_papers (map fst (pc s)) of Inl e \<Rightarrow> Inl e
                | Inr sorted_pc \<Rightarrow> Inr (sorted_papers, sorted_pc)))
      else Inr (map fst (papers s), map fst (pc s)))"

definition render :: "bool \<Rightarrow> tables \<Rightarrow> scaled \<Rightarrow> string list \<Rightarrow> string list \<Rightarrow> chunk list \<Rightarrow> printed" where
  "render has_lengths s ps sorted_papers sorted_pc out =
     (case print_pc has_lengths s out sorted_pc of
        (out1, Some e) \<Rightarrow> (out1, Some e)
      | (out1, None) \<Rightarrow>
         (case print_rows has_lengths s ps sorted_pc
                 (out1 @ [Text ([bslash, bslash] @ '' '' @ bslash # ''hline'')]) sorted_papers of
            (out2, Some e) \<Rightarrow> (out2, Some e)
          | (out2, None) \<Rightarrow> (out2 @ [Footer], None)))"

definition run :: "options \<Rightarrow> pref_row list \<Rightarrow> assign_row list option \<Rightarrow> length_row list option \<Rightarrow> printed" where
  "run opts pref_file assign_file lengths_file =
     (case load_all pref_file lengths_file assign_file of Inl e \<Rightarrow> (header opts, Some e)
      | Inr s \<Rightarrow>
      (case compute_bounds (opt_scale opts) s of Inl e \<Rightarrow> (header opts, Some e)
       | Inr s' \<Rightarrow>
       (case prefs_scaled s' of Inl e \<Rightarrow> (header opts, Some e)
        | Inr ps \<Rightarrow>
        (case order (opt_order opts) s' ps of Inl e \<Rightarrow> (header opts, Some e)
         | Inr (sorted_papers, sorted_pc) \<Rightarrow>
             render (lengths_file \<noteq> None) s' ps sorted_papers sorted_pc (header opts)))))"

subsection \<open>Reference formulas and example inputs\<close>



definition mk_row :: "string \<Rightarrow> string \<Rightarrow> string \<Rightarrow> cell \<Rightarrow> cell \<Rightarrow> string \<Rightarrow> pref_row" where
  "mk_row p f l ts pr c =
     \<lparr>row_paper = p, row_title = ''t'', row_first = f, row_last = l, row_email = f @ ''@x'',
      row_topic_score = ts, row_preference = pr, row_conflict = c\<rparr>"

text \<open>One reviewer, three papers, topic scores 0, 2 and 3.\<close>

definition rows_one_reviewer :: "pref_row list" where
  "rows_one_reviewer =
     [mk_row ''1'' ''A'' ''B'' (Num 0) Empty [],
      mk_row ''2'' ''A'' ''B'' (Num 2) Empty [],
      mk_row ''3'' ''A'' ''B'' (Num 3) Empty []]"



definition opts_scale :: options where
  "opts_scale = \<lparr>opt_black = False, opt_scale = True, opt_order = False\<rparr>"

text \<open>One reviewer whose only score is 0.\<close>

definition rows_all_zero :: "pref_row list" where
  "rows_all_zero = [mk_row ''1'' ''A'' ''B'' (Num 0) Empty []]"


text \<open>
  One reviewer: an explicit preference of \<open>-100\<close> on paper 1, a conflict on paper 2 and a
  topic score of 4 on paper 3.
\<close>

definition rows_minus_hundred :: "pref_row list" where
  "rows_minus_hundred =
     [mk_row ''1'' ''A'' ''B'' (Num 3) (Num (- 100)) [],
      mk_row ''2'' ''A'' ''B'' (Num 7) Empty ''conflict'',
      mk_row ''3'' ''A'' ''B'' (Num 4) Empty []]"

text \<open>What \<open>latex_encode\<close> does to one character: its entry of \<open>conv\<close>, or the character.\<close>

definition escape_char :: "char \<Rightarrow> string" where
  "escape_char c = (case map_of conv [c] of None \<Rightarrow> [c] | Some r \<Rightarrow> r)"

text \<open>
  The last row of the preference table for a pair, the raw score and the kind recorded
  for a pair, and what one row says about its pair: the kind by the precedence conflict,
  then explicit preference, then topic score, and the text of the score that goes with it.
\<close>

fun last_row :: "string \<Rightarrow> string \<Rightarrow> pref_row list \<Rightarrow> pref_row option" where
  "last_row p name [] = None"
| "last_row p name (line # rest) =
     (case last_row p name rest of
        Some r \<Rightarrow> Some r
      | None \<Rightarrow> if row_paper line = p \<and> row_name line = name then Some line else None)"

definition entry :: "tables \<Rightarrow> string \<Rightarrow> string \<Rightarrow> (int \<times> string) option" where
  "entry s p name =
     (case prefs s p of None \<Rightarrow> None | Some pr \<Rightarrow>
      (case prefs_type s p of None \<Rightarrow> None | Some ty \<Rightarrow>
       (case pr name of None \<Rightarrow> None | Some raw \<Rightarrow>
        (case ty name of None \<Rightarrow> None | Some kind \<Rightarrow> Some (raw, kind)))))"

definition row_kind :: "pref_row \<Rightarrow> string" where
  "row_kind line =
     (if row_conflict line = ''conflict'' then ''C''
      else if truthy (row_preference line) then ''P'' else ''T'')"

definition row_raw :: "pref_row \<Rightarrow> cell" where
  "row_raw line =
     (if row_conflict line = ''conflict'' then Num (- 100)
      else if truthy (row_preference line) then row_preference line else row_topic_score line)"

text \<open>Two rows for the same pair: a conflict, then an explicit preference of 5.\<close>

definition rows_conflict_then_pref :: "pref_row list" where
  "rows_conflict_then_pref =
     [mk_row ''1'' ''A'' ''B'' (Num 3) Empty ''conflict'',
      mk_row ''1'' ''A'' ''B'' (Num 3) (Num 5) []]"

text \<open>Only papers of \<open>papers\<close> have an entry in \<open>prefs\<close> and \<open>prefs_type\<close>.\<close>

definition papers_cover :: "tables \<Rightarrow> bool" where
  "papers_cover s \<longleftrightarrow>
     (\<forall>p. map_of (papers s) p = None \<longrightarrow> prefs s p = None \<and> prefs_type s p = None)"

definition opts_plain :: options where
  "opts_plain = \<lparr>opt_black = False, opt_scale = False, opt_order = False\<rparr>"

text \<open>An assignment table whose only row names an email that no preference row has.\<close>

definition assign_unknown :: "assign_row list" where
  "assign_unknown = [\<lparr>row_action = ''primary'', arow_paper = ''1'', arow_email = ''nobody@x''\<rparr>]"

text \<open>
  The pairs of scaled scores of the reviewers that have one for both papers, and their
  root-mean-square difference.
\<close>

definition shared_pair :: "scaled \<Rightarrow> string \<Rightarrow> string \<Rightarrow> string \<Rightarrow> (int \<times> int) option" where
  "shared_pair ps p1 p2 name =
     (case ps p1 of None \<Rightarrow> None | Some r1 \<Rightarrow>
      (case r1 name of None \<Rightarrow> None | Some a \<Rightarrow>
       (case ps p2 of None \<Rightarrow> None | Some r2 \<Rightarrow>
        (case r2 name of None \<Rightarrow> None | Some b \<Rightarrow> Some (a, b)))))"

definition shared_scores :: "scaled \<Rightarrow> string list \<Rightarrow> string \<Rightarrow> string \<Rightarrow> (int \<times> int) list" where
  "shared_scores ps names p1 p2 = List.map_filter (shared_pair ps p1 p2) names"

definition rms :: "(int \<times> int) list \<Rightarrow> real" where
  "rms xs = sqrt ((\<Sum>ab\<leftarrow>xs. (real_of_int (fst ab) - real_of_int (snd ab))\<^sup>2) / real (length xs))"

definition opts_order :: options where
  "opts_order = \<lparr>opt_black = False, opt_scale = False, opt_order = True\<rparr>"

text \<open>
  Two papers and two reviewers, each reviewer in conflict with one of the papers: no
  reviewer has a scaled score for both papers.
\<close>

definition rows_no_shared :: "pref_row list" where
  "rows_no_shared =
     [mk_row ''1'' ''A'' ''B'' (Num 0) Empty ''conflict'',
      mk_row ''1'' ''C'' ''D'' (Num 5) Empty [],
      mk_row ''2'' ''A'' ''B'' (Num 5) Empty [],
      mk_row ''2'' ''C'' ''D'' (Num 0) Empty ''conflict'']"

text \<open>
  The affinity of a reviewer in the words of the specification: the sum of intensity times
  position over the sum of intensities, and \<open>-1\<close> when the latter is not positive. A paper
  without a scaled score of the reviewer contributes nothing.
\<close>

definition entry_val :: "scaled \<Rightarrow> string \<Rightarrow> string \<Rightarrow> int" where
  "entry_val ps name p =
     (case ps p of None \<Rightarrow> 0 | Some row \<Rightarrow> (case row name of None \<Rightarrow> 0 | Some v \<Rightarrow> v))"

definition weighted_positions :: "scaled \<Rightarrow> string list \<Rightarrow> string \<Rightarrow> int" where
  "weighted_positions ps sorted_papers name =
     (\<Sum>ip\<leftarrow>enumerate 0 sorted_papers. entry_val ps name (snd ip) * int (fst ip))"

definition total_intensity :: "scaled \<Rightarrow> string list \<Rightarrow> string \<Rightarrow> int" where
  "total_intensity ps sorted_papers name =
     (\<Sum>ip\<leftarrow>enumerate 0 sorted_papers. entry_val ps name (snd ip))"

definition affinity_value :: "scaled \<Rightarrow> string list \<Rightarrow> string \<Rightarrow> real" where
  "affinity_value ps sorted_papers name =
     (if total_intensity ps sorted_papers name > 0
      then real_of_int (weighted_positions ps sorted_papers name) /
           real_of_int (total_intensity ps sorted_papers name)
      else - 1)"

text \<open>
  Fixed bounds \<open>(-20, 20)\<close>: the first reviewer gives both papers the lowest score, the
  second reviewer gives 20 and 0.
\<close>

definition rows_lowest_score :: "pref_row list" where
  "rows_lowest_score =
     [mk_row ''1'' ''A'' ''B'' (Num (- 20)) Empty [],
      mk_row ''1'' ''C'' ''D'' (Num 20) Empty [],
      mk_row ''2'' ''A'' ''B'' (Num (- 20)) Empty [],
      mk_row ''2'' ''C'' ''D'' (Num 0) Empty []]"







section \<open>Properties\<close>

subsection \<open>Evaluation rules\<close>

lemmas load_simps = mk_row_def empty_tables_def pref_line_def add_paper_def add_pc_def
  row_name_def row_score_def lookup_def Let_def

lemmas scale_simps = compute_bounds_def name_bounds_def bound_step_def set_minmax_def
  prefs_scaled_def scaled_cell_def scale_score_def int_truediv_def signed_divide_int_def

lemmas run_simps = run_def load_all_def header_def order_def render_def

subsection \<open>Integer division with truncation\<close>





subsection \<open>One scaled score\<close>




lemma scale_score_range: "scale_score raw mn mx = Inr v \<Longrightarrow> 0 \<le> v \<and> v \<le> 100"
  by (auto simp: scale_score_def Let_def split: sum.splits if_splits)

subsection \<open>The table of scaled scores\<close>

lemma scaled_cell_other:
  "scaled_cell s p name row = Inr row' \<Longrightarrow> n \<noteq> name \<Longrightarrow> row' n = row n"
  by (auto simp: scaled_cell_def split: sum.splits option.splits if_splits)



lemma scaled_loop_stored:
  "scaled_loop s ps plist = Inr ps' \<Longrightarrow>
   p \<in> set plist \<or> (\<exists>row. scaled_row s p Map.empty (map fst (pc s)) = Inr row \<and> ps p = Some row) \<Longrightarrow>
   \<exists>row. scaled_row s p Map.empty (map fst (pc s)) = Inr row \<and> ps' p = Some row"
proof (induction plist arbitrary: ps)
  case Nil
  then show ?case by simp
next
  case (Cons a plist)
  from Cons.prems(1) obtain r1 where c: "scaled_row s a Map.empty (map fst (pc s)) = Inr r1"
    and r: "scaled_loop s (ps(a \<mapsto> r1)) plist = Inr ps'"
    by (auto split: sum.splits)
  have "p \<in> set plist \<or>
      (\<exists>row. scaled_row s p Map.empty (map fst (pc s)) = Inr row \<and> (ps(a \<mapsto> r1)) p = Some row)"
    using Cons.prems(2) c by (cases "a = p") auto
  with Cons.IH[OF r] show ?case by blast
qed


subsection \<open>Claim C1\<close>

lemma dist_step_shared:
  "ps p1 = Some r1 \<Longrightarrow> ps p2 = Some r2 \<Longrightarrow>
   dist_step ps p1 p2 st name =
     Inr (case shared_pair ps p1 p2 name of None \<Rightarrow> st
          | Some ab \<Rightarrow> (fst st + (fst ab - snd ab)\<^sup>2, snd st + 1))"
  by (simp add: dist_step_def shared_pair_def lookup_def split: option.splits)

lemma dist_loop_shared:
  "ps p1 = Some r1 \<Longrightarrow> ps p2 = Some r2 \<Longrightarrow>
   dist_loop ps p1 p2 st names =
     Inr (fst st + (\<Sum>ab\<leftarrow>shared_scores ps names p1 p2. (fst ab - snd ab)\<^sup>2),
          snd st + length (shared_scores ps names p1 p2))"
proof (induction names arbitrary: st)
  case Nil
  then show ?case by (simp add: shared_scores_def List.map_filter_simps)
next
  case (Cons name names)
  show ?case
    using Cons.prems Cons.IH [OF Cons.prems]
    by (simp add: dist_step_shared [OF Cons.prems] shared_scores_def List.map_filter_simps
        split: option.splits)
qed

text \<open>
  When both papers have a row of scaled scores, \<open>paper_dist\<close> is the root-mean-square
  difference over the shared reviewers, and a division by zero when there is none.
\<close>

lemma paper_dist_rms:
  assumes "ps p1 = Some r1" and "ps p2 = Some r2"
  shows "paper_dist ps names p1 p2 =
     (if shared_scores ps names p1 p2 = [] then Inl ZeroDivisionError
      else Inr (rms (shared_scores ps names p1 p2)))"
proof -
  let ?xs = "shared_scores ps names p1 p2"
  have "real_of_int (\<Sum>ab\<leftarrow>xs. (fst ab - snd ab)\<^sup>2) =
      (\<Sum>ab\<leftarrow>xs. (real_of_int (fst ab) - real_of_int (snd ab))\<^sup>2)" for xs :: "(int \<times> int) list"
    by (induction xs) simp_all
  then show ?thesis
    by (simp add: paper_dist_def dist_loop_shared [OF assms] rms_def real_sqrt_divide)
qed

lemma no_shared_tables:
  "\<exists>s. load_prefs empty_tables rows_no_shared = Inr s \<and>
     (\<exists>s2. compute_bounds False s = Inr s2 \<and> map fst (pc s2) = [''A B'', ''C D''] \<and>
        (\<exists>ps. prefs_scaled s2 = Inr ps \<and>
           shared_scores ps [''A B'', ''C D''] ''1'' ''2'' = [] \<and>
           paper_dist ps [''A B'', ''C D''] ''1'' ''2'' = Inl ZeroDivisionError))"
  by (simp add: rows_no_shared_def load_simps scale_simps shared_scores_def shared_pair_def
      List.map_filter_simps paper_dist_def dist_step_def)

text \<open>
  C1 does not hold of the code in its second part. Two papers without a shared scored
  reviewer have no distance: \<open>math.sqrt(s)/math.sqrt(t)\<close> divides by zero, and a run with
  reordering stops with \<open>ZeroDivisionError\<close> after the header.
\<close>

theorem C1_no_shared_reviewer_fault:
  "run opts_order rows_no_shared None None = (header opts_order, Some ZeroDivisionError)"
  by (simp add: opts_order_def rows_no_shared_def run_simps load_simps scale_simps
      sort_papers_def cluster.simps find_best_def index_pairs_def papers_dist_def
      paper_dist_def dist_step_def)

subsection \<open>Claim C2\<close>




















subsection \<open>Claim C3\<close>





subsection \<open>Claim C4\<close>

lemma scale_score_degenerate: "scale_score raw mn mn = Inl ZeroDivisionError"
  by (simp add: scale_score_def int_truediv_def)

lemma all_zero_tables:
  "\<exists>s s2. load_prefs empty_tables rows_all_zero = Inr s \<and>
     compute_bounds True s = Inr s2 \<and>
     (\<exists>ent. map_of (pc s2) ''A B'' = Some ent \<and> pc_min ent = Some 0 \<and> pc_max ent = Some 0) \<and>
     prefs_scaled s2 = Inl ZeroDivisionError"
  by (simp add: rows_all_zero_def load_simps scale_simps)

text \<open>
  C4 does not hold of the code. In adaptive mode a reviewer whose scores above \<open>-100\<close> are
  all 0 gets the bounds \<open>(0, 0)\<close>, and scaling the score divides by \<open>max - min = 0\<close>: the
  run stops with \<open>ZeroDivisionError\<close> after the header has been printed.
\<close>

theorem C4_degenerate_bounds_fault:
  "run opts_scale rows_all_zero None None = (header opts_scale, Some ZeroDivisionError)"
  by (simp add: opts_scale_def rows_all_zero_def run_simps load_simps scale_simps)

subsection \<open>Claim C5\<close>
























subsection \<open>Claim C6\<close>

lemma row_score_eq: "row_score line = (row_raw line, row_kind line)"
  by (simp add: row_score_def row_raw_def row_kind_def)

lemma pref_line_entry:
  assumes "pref_line s line = Inr s'" and "papers_cover s"
  shows "papers_cover s'"
    and "entry s' p name =
      (if row_paper line = p \<and> row_name line = name
       then (case py_int (row_raw line) of Inl e \<Rightarrow> None | Inr v \<Rightarrow> Some (v, row_kind line))
       else entry s p name)"
proof -
  show "papers_cover s'"
    using assms
    by (auto simp: pref_line_def row_score_eq add_paper_def add_pc_def lookup_def Let_def
        papers_cover_def split: sum.splits option.splits if_splits)
  show "entry s' p name =
      (if row_paper line = p \<and> row_name line = name
       then (case py_int (row_raw line) of Inl e \<Rightarrow> None | Inr v \<Rightarrow> Some (v, row_kind line))
       else entry s p name)"
    using assms
    by (auto simp: pref_line_def row_score_eq add_paper_def add_pc_def lookup_def Let_def
        papers_cover_def entry_def split: sum.splits option.splits if_splits)
qed

lemma load_prefs_entry:
  "load_prefs s rows = Inr s' \<Longrightarrow> papers_cover s \<Longrightarrow>
   entry s' p name =
     (case last_row p name rows of
        None \<Rightarrow> entry s p name
      | Some line \<Rightarrow> (case py_int (row_raw line) of Inl e \<Rightarrow> None | Inr v \<Rightarrow> Some (v, row_kind line)))"
proof (induction rows arbitrary: s)
  case Nil
  then show ?case by simp
next
  case (Cons line rows)
  from Cons.prems(1) obtain s1 where l: "pref_line s line = Inr s1"
    and r: "load_prefs s1 rows = Inr s'"
    by (auto split: sum.splits)
  from pref_line_entry [OF l Cons.prems(2)] Cons.IH [OF r]
  show ?case by (auto split: option.splits)
qed

lemma load_prefs_raw:
  "load_prefs s rows = Inr s' \<Longrightarrow> line \<in> set rows \<Longrightarrow> \<exists>v. py_int (row_raw line) = Inr v"
proof (induction rows arbitrary: s)
  case Nil
  then show ?case by simp
next
  case (Cons a rows)
  from Cons.prems(1) obtain s1 where l: "pref_line s a = Inr s1"
    and r: "load_prefs s1 rows = Inr s'"
    by (auto split: sum.splits)
  from l have "\<exists>v. py_int (row_raw a) = Inr v"
    by (auto simp: pref_line_def row_score_eq Let_def split: sum.splits)
  with Cons.IH [OF r] Cons.prems(2) show ?case by auto
qed

lemma last_row_mem: "last_row p name rows = Some line \<Longrightarrow> line \<in> set rows"
  by (induction rows) (auto split: option.splits if_splits)

lemma papers_cover_empty: "papers_cover empty_tables"
  by (simp add: papers_cover_def empty_tables_def)

text \<open>
  C6, as the code has it. Every row overwrites what is recorded for its pair, so after
  loading, the kind and the raw score of a pair are those of the last row of the table
  for that pair: within that row a conflict wins over an explicit preference, which wins
  over the topic score. Whenever the recorded kind is \<open>C\<close>, the raw score is \<open>-100\<close>.
\<close>

theorem C6_last_row_decides:
  assumes "load_prefs empty_tables rows = Inr s"
  shows "(last_row p name rows = None \<longrightarrow> entry s p name = None) \<and>
     (\<forall>line. last_row p name rows = Some line \<longrightarrow>
        (\<exists>raw. py_int (row_raw line) = Inr raw \<and> entry s p name = Some (raw, row_kind line))) \<and>
     (\<forall>raw. entry s p name = Some (raw, ''C'') \<longrightarrow> raw = - 100)"
proof -
  note e = load_prefs_entry [OF assms papers_cover_empty, of p name]
  have a: "last_row p name rows = None \<longrightarrow> entry s p name = None"
    using e by (auto simp: entry_def empty_tables_def)
  have b: "\<exists>raw. py_int (row_raw line) = Inr raw \<and> entry s p name = Some (raw, row_kind line)"
    if "last_row p name rows = Some line" for line
  proof -
    from that have "line \<in> set rows" by (rule last_row_mem)
    with assms obtain v where "py_int (row_raw line) = Inr v"
      using load_prefs_raw by blast
    with e that show ?thesis by simp
  qed
  have c: "raw = - 100" if "entry s p name = Some (raw, ''C'')" for raw
  proof (cases "last_row p name rows")
    case None
    with a that show ?thesis by simp
  next
    case (Some line)
    from b [OF Some] that obtain v where v: "py_int (row_raw line) = Inr v"
      and k: "row_kind line = ''C''" and rv: "raw = v" by auto
    from k have "row_conflict line = ''conflict''"
      by (auto simp: row_kind_def split: if_splits)
    with v rv show ?thesis by (simp add: row_raw_def)
  qed
  from a b c show ?thesis by blast
qed

lemma conflict_then_pref:
  "\<exists>s. load_prefs empty_tables rows_conflict_then_pref = Inr s \<and> entry s ''1'' ''A B'' = Some (5, ''P'')"
  by (simp add: rows_conflict_then_pref_def load_simps entry_def)

lemma pref_then_conflict:
  "\<exists>s. load_prefs empty_tables (rev rows_conflict_then_pref) = Inr s \<and>
     entry s ''1'' ''A B'' = Some (- 100, ''C'')"
  by (simp add: rows_conflict_then_pref_def load_simps entry_def)

theorem C6_last_row_decides_witness:
  "\<exists>s line. load_prefs empty_tables rows_conflict_then_pref = Inr s \<and>
     last_row ''1'' ''A B'' rows_conflict_then_pref = Some line \<and>
     row_kind line = ''P'' \<and> entry s ''1'' ''A B'' = Some (5, row_kind line)"
proof -
  from conflict_then_pref obtain s where
    l: "load_prefs empty_tables rows_conflict_then_pref = Inr s" by blast
  have r: "last_row ''1'' ''A B'' rows_conflict_then_pref = Some (mk_row ''1'' ''A'' ''B'' (Num 3) (Num 5) [])"
    by (simp add: rows_conflict_then_pref_def mk_row_def row_name_def)
  have k: "row_kind (mk_row ''1'' ''A'' ''B'' (Num 3) (Num 5) []) = ''P''"
    and v: "py_int (row_raw (mk_row ''1'' ''A'' ''B'' (Num 3) (Num 5) [])) = Inr 5"
    by (simp_all add: row_kind_def row_raw_def mk_row_def)
  from C6_last_row_decides [OF l, of "''1''" "''A B''"] r k v l show ?thesis by auto
qed

text \<open>
  The claim as stated fails when two rows contribute to one pair: a conflict row followed
  by a preference row leaves the pair tagged \<open>P\<close> with the raw score 5, and the same rows
  in the other order leave it tagged \<open>C\<close>.
\<close>

theorem C6_row_order_counterexample:
  "\<exists>s s'. load_prefs empty_tables rows_conflict_then_pref = Inr s \<and>
     load_prefs empty_tables (rev rows_conflict_then_pref) = Inr s' \<and>
     row_conflict (hd rows_conflict_then_pref) = ''conflict'' \<and>
     entry s ''1'' ''A B'' = Some (5, ''P'') \<and> entry s' ''1'' ''A B'' = Some (- 100, ''C'')"
proof -
  have "row_conflict (hd rows_conflict_then_pref) = ''conflict''"
    by (simp add: rows_conflict_then_pref_def mk_row_def)
  with conflict_then_pref pref_then_conflict show ?thesis by blast
qed

subsection \<open>Claim C7\<close>

lemma aff_step_val:
  "ps (snd ip) \<noteq> None \<Longrightarrow>
   aff_step ps name st ip =
     Inr (fst st + entry_val ps name (snd ip) * int (fst ip), snd st + entry_val ps name (snd ip))"
  by (auto simp: aff_step_def lookup_def entry_val_def split: option.splits)

lemma aff_loop_val:
  "\<forall>ip\<in>set ips. ps (snd ip) \<noteq> None \<Longrightarrow>
   aff_loop ps name st ips =
     Inr (fst st + (\<Sum>ip\<leftarrow>ips. entry_val ps name (snd ip) * int (fst ip)),
          snd st + (\<Sum>ip\<leftarrow>ips. entry_val ps name (snd ip)))"
proof (induction ips arbitrary: st)
  case Nil
  then show ?case by simp
next
  case (Cons ip ips)
  then show ?case by (simp add: aff_step_val)
qed

lemma affinity_eq:
  assumes "\<forall>p\<in>set sp. ps p \<noteq> None"
  shows "affinity ps sp name = Inr (affinity_value ps sp name)"
proof -
  have "\<forall>ip\<in>set (enumerate 0 sp). ps (snd ip) \<noteq> None"
    using assms by (auto simp: enumerate_eq_zip dest: set_zip_rightD)
  from aff_loop_val [OF this] show ?thesis
    by (simp add: affinity_def affinity_value_def weighted_positions_def total_intensity_def)
qed

lemma keys_loop_eq:
  assumes "\<forall>p\<in>set sp. ps p \<noteq> None"
  shows "keys_loop ps sp names = Inr (map (\<lambda>n. (n, affinity_value ps sp n)) names)"
  by (induction names) (simp_all add: affinity_eq [OF assms])

lemma insort_key_pair:
  "insort_key snd (n, f n) (map (\<lambda>n. (n, f n)) ys) = map (\<lambda>n. (n, f n)) (insort_key f n ys)"
  by (induction ys) simp_all

lemma sort_key_pair:
  "sort_key snd (map (\<lambda>n. (n, f n)) xs) = map (\<lambda>n. (n, f n)) (sort_key f xs)"
  by (induction xs) (simp_all add: insort_key_pair)

lemma sort_pc_eq:
  assumes "\<forall>p\<in>set sp. ps p \<noteq> None"
  shows "sort_pc ps sp names = Inr (sort_key (affinity_value ps sp) names)"
  by (simp add: sort_pc_def keys_loop_eq [OF assms] sort_key_pair comp_def)

lemma entry_val_nonneg:
  "\<forall>p row n v. ps p = Some row \<longrightarrow> row n = Some v \<longrightarrow> 0 \<le> v \<Longrightarrow> 0 \<le> entry_val ps name p"
  by (auto simp: entry_val_def split: option.splits)

lemma affinity_value_range:
  assumes "\<forall>p row n v. ps p = Some row \<longrightarrow> row n = Some v \<longrightarrow> 0 \<le> v"
  shows "affinity_value ps sp name = - 1 \<or> 0 \<le> affinity_value ps sp name"
proof -
  have "0 \<le> weighted_positions ps sp name"
    unfolding weighted_positions_def
    by (intro sum_list_nonneg) (auto simp: entry_val_nonneg [OF assms])
  then show ?thesis by (simp add: affinity_value_def)
qed

lemma scaled_cell_range:
  "scaled_cell s p name row = Inr row' \<Longrightarrow> \<forall>n v. row n = Some v \<longrightarrow> 0 \<le> v \<and> v \<le> 100 \<Longrightarrow>
   \<forall>n v. row' n = Some v \<longrightarrow> 0 \<le> v \<and> v \<le> 100"
  by (auto simp: scaled_cell_def split: sum.splits option.splits if_splits
      dest: scale_score_range)

lemma scaled_row_range:
  "scaled_row s p row names = Inr row' \<Longrightarrow> \<forall>n v. row n = Some v \<longrightarrow> 0 \<le> v \<and> v \<le> 100 \<Longrightarrow>
   \<forall>n v. row' n = Some v \<longrightarrow> 0 \<le> v \<and> v \<le> 100"
proof (induction names arbitrary: row)
  case Nil
  then show ?case by simp
next
  case (Cons a names)
  from Cons.prems(1) obtain r1 where c: "scaled_cell s p a row = Inr r1"
    and r: "scaled_row s p r1 names = Inr row'"
    by (auto split: sum.splits)
  from Cons.IH [OF r scaled_cell_range [OF c Cons.prems(2)]] show ?case .
qed

lemma scaled_loop_range:
  "scaled_loop s ps plist = Inr ps' \<Longrightarrow>
   \<forall>p row n v. ps p = Some row \<longrightarrow> row n = Some v \<longrightarrow> 0 \<le> v \<and> v \<le> 100 \<Longrightarrow>
   \<forall>p row n v. ps' p = Some row \<longrightarrow> row n = Some v \<longrightarrow> 0 \<le> v \<and> v \<le> 100"
proof (induction plist arbitrary: ps)
  case Nil
  then show ?case by simp
next
  case (Cons a plist)
  from Cons.prems(1) obtain r1 where c: "scaled_row s a Map.empty (map fst (pc s)) = Inr r1"
    and r: "scaled_loop s (ps(a \<mapsto> r1)) plist = Inr ps'"
    by (auto split: sum.splits)
  from scaled_row_range [OF c] have "\<forall>n v. r1 n = Some v \<longrightarrow> 0 \<le> v \<and> v \<le> 100" by simp
  with Cons.prems(2)
  have "\<forall>p row n v. (ps(a \<mapsto> r1)) p = Some row \<longrightarrow> row n = Some v \<longrightarrow> 0 \<le> v \<and> v \<le> 100"
    by auto
  from Cons.IH [OF r this] show ?case .
qed

lemma prefs_scaled_range:
  "prefs_scaled s = Inr ps \<Longrightarrow> ps p = Some row \<Longrightarrow> row n = Some v \<Longrightarrow> 0 \<le> v \<and> v \<le> 100"
  unfolding prefs_scaled_def using scaled_loop_range [of s Map.empty] by fastforce

lemma prefs_scaled_dom:
  "prefs_scaled s = Inr ps \<Longrightarrow> p \<in> set (map fst (papers s)) \<Longrightarrow> ps p \<noteq> None"
  unfolding prefs_scaled_def using scaled_loop_stored by fastforce

text \<open>
  C7, as the code has it. For a paper order within the papers of the table, the affinity
  of a reviewer is the sum of intensity times position over the sum of intensities when
  that sum is positive, and the sentinel \<open>-1\<close> otherwise, that is for a reviewer without
  scaled scores and also for a reviewer whose scaled scores are all 0. Every computed
  affinity is at least 0, so the sentinel sorts first. The reviewer order is ascending by
  affinity, a permutation of the reviewers, and stable.
\<close>

theorem C7_reviewer_order:
  assumes "prefs_scaled s = Inr ps" and "set sp \<subseteq> set (map fst (papers s))"
  shows "\<exists>sorted_pc. sort_pc ps sp names = Inr sorted_pc \<and>
     (\<forall>name. affinity ps sp name = Inr (affinity_value ps sp name) \<and>
        (affinity_value ps sp name = - 1 \<or> 0 \<le> affinity_value ps sp name)) \<and>
     sorted (map (affinity_value ps sp) sorted_pc) \<and>
     mset sorted_pc = mset names \<and>
     (\<forall>k. filter (\<lambda>n. affinity_value ps sp n = k) sorted_pc =
          filter (\<lambda>n. affinity_value ps sp n = k) names)"
proof -
  have d: "\<forall>p\<in>set sp. ps p \<noteq> None"
    using assms prefs_scaled_dom by blast
  have r: "\<forall>p row n v. ps p = Some row \<longrightarrow> row n = Some v \<longrightarrow> 0 \<le> v"
    using prefs_scaled_range [OF assms(1)] by blast
  from sort_pc_eq [OF d] affinity_eq [OF d] affinity_value_range [OF r]
  show ?thesis by (simp add: sort_key_stable)
qed

lemma lowest_score_tables:
  "\<exists>s. load_prefs empty_tables rows_lowest_score = Inr s \<and>
     (\<exists>s2. compute_bounds False s = Inr s2 \<and> map fst (papers s2) = [''1'', ''2''] \<and>
        (\<exists>ps. prefs_scaled s2 = Inr ps \<and>
           (\<exists>row. ps ''1'' = Some row \<and> row ''A B'' = Some 0) \<and>
           affinity ps [''1'', ''2''] ''A B'' = Inr (- 1) \<and>
           weighted_positions ps [''1'', ''2''] ''A B'' = 0 \<and>
           total_intensity ps [''1'', ''2''] ''A B'' = 0 \<and>
           affinity_value ps [''1'', ''2''] ''A B'' = - 1 \<and>
           affinity_value ps [''1'', ''2''] ''C D'' = 1 / 3))"
  by (simp add: rows_lowest_score_def load_simps scale_simps affinity_def aff_step_def
      affinity_value_def total_intensity_def weighted_positions_def entry_val_def enumerate_eq_zip)

theorem C7_reviewer_order_witness:
  "\<exists>s s2 ps. load_prefs empty_tables rows_lowest_score = Inr s \<and>
     compute_bounds False s = Inr s2 \<and> prefs_scaled s2 = Inr ps \<and>
     sort_pc ps [''1'', ''2''] [''C D'', ''A B''] = Inr [''A B'', ''C D''] \<and>
     affinity ps [''1'', ''2''] ''C D'' = Inr (1 / 3)"
proof -
  from lowest_score_tables obtain s s2 ps where
    l: "load_prefs empty_tables rows_lowest_score = Inr s" "compute_bounds False s = Inr s2"
    and p: "prefs_scaled s2 = Inr ps" and m: "map fst (papers s2) = [''1'', ''2'']"
    and a: "affinity_value ps [''1'', ''2''] ''A B'' = - 1"
      "affinity_value ps [''1'', ''2''] ''C D'' = 1 / 3"
    by auto
  have sub: "set [''1'', ''2''] \<subseteq> set (map fst (papers s2))" using m by simp
  from C7_reviewer_order [OF p sub, of "[''C D'', ''A B'']"]
  obtain sorted_pc where
    so: "sort_pc ps [''1'', ''2''] [''C D'', ''A B''] = Inr sorted_pc"
    and af: "\<forall>name. affinity ps [''1'', ''2''] name = Inr (affinity_value ps [''1'', ''2''] name)"
    and sr: "sorted (map (affinity_value ps [''1'', ''2'']) sorted_pc)"
    and ms: "mset sorted_pc = mset [''C D'', ''A B'']"
    by blast
  from ms have "size (mset sorted_pc) = 2" by simp
  then have "length sorted_pc = 2" by simp
  then obtain x y where xy: "sorted_pc = [x, y]"
    by (metis (no_types, opaque_lifting) One_nat_def Suc_1 length_0_conv length_Suc_conv)
  from ms xy have "set [x, y] = {''C D'', ''A B''}"
    by (metis list.simps(15) empty_set set_mset_mset set_mset_add_mset_insert set_mset_empty)
  with sr xy a have "x = ''A B'' \<and> y = ''C D''"
    by (auto simp: doubleton_eq_iff)
  with so xy af a l p show ?thesis by auto
qed

text \<open>
  The claim as stated fails: a reviewer with scaled scores, all of them 0, gets the
  sentinel and not a weighted average.
\<close>

theorem C7_zero_intensity_counterexample:
  "\<exists>s s2 ps row. load_prefs empty_tables rows_lowest_score = Inr s \<and>
     compute_bounds False s = Inr s2 \<and> prefs_scaled s2 = Inr ps \<and>
     ps ''1'' = Some row \<and> row ''A B'' = Some 0 \<and>
     affinity ps [''1'', ''2''] ''A B'' = Inr (- 1) \<and>
     affinity ps [''1'', ''2''] ''A B'' \<noteq>
       Inr (real_of_int (weighted_positions ps [''1'', ''2''] ''A B'') /
            real_of_int (total_intensity ps [''1'', ''2''] ''A B''))"
proof -
  from lowest_score_tables obtain s s2 ps row where
    "load_prefs empty_tables rows_lowest_score = Inr s" "compute_bounds False s = Inr s2"
    "prefs_scaled s2 = Inr ps" "ps ''1'' = Some row" "row ''A B'' = Some 0"
    "affinity ps [''1'', ''2''] ''A B'' = Inr (- 1)"
    "weighted_positions ps [''1'', ''2''] ''A B'' = 0"
    "total_intensity ps [''1'', ''2''] ''A B'' = 0"
    by auto
  then show ?thesis by auto
qed

subsection \<open>Claim C8\<close>

lemma alternatives_conv: "alternatives conv = conv"
  by (simp add: alternatives_def conv_def)

lemma conv_keys_single: "\<forall>kv\<in>set conv. length (fst kv) = 1"
  by (simp add: conv_def)

lemma match_at_single:
  "\<forall>kv\<in>set alts. length (fst kv) = 1 \<Longrightarrow>
   match_at alts (c # cs) = (case map_of alts [c] of None \<Rightarrow> None | Some r \<Rightarrow> Some ([c], r))"
proof (induction alts)
  case Nil
  then show ?case by simp
next
  case (Cons kv alts)
  obtain k r where kv: "kv = (k, r)" by (cases kv)
  from Cons.prems kv obtain d where k: "k = [d]"
    by (cases k) auto
  from Cons show ?case by (auto simp: kv k)
qed

lemma regex_sub_single:
  "\<forall>kv\<in>set alts. length (fst kv) = 1 \<Longrightarrow>
   regex_sub alts text =
     concat (map (\<lambda>c. case map_of alts [c] of None \<Rightarrow> [c] | Some r \<Rightarrow> r) text)"
proof (induction "text")
  case Nil
  then show ?case by simp
next
  case (Cons c cs)
  then show ?case by (simp add: match_at_single split: option.splits)
qed

lemma latex_encode_chars: "latex_encode text = concat (map escape_char text)"
  unfolding latex_encode_def alternatives_conv escape_char_def
  by (rule regex_sub_single [OF conv_keys_single])

lemma latex_encode_clean:
  "\<forall>c\<in>set text. map_of conv [c] = None \<Longrightarrow> latex_encode text = text"
  unfolding latex_encode_chars by (induction "text") (simp_all add: escape_char_def)

lemma latex_encode_key: "\<forall>kv\<in>set conv. latex_encode (fst kv) = snd kv"
  by (simp add: latex_encode_chars escape_char_def conv_def bslash_def)

text \<open>
  C8, as the code has it. \<open>latex_encode\<close> replaces, in one pass from left to right, every
  reserved character by its escape sequence and copies every other character; the
  replacement text is not scanned again. So every key of \<open>conv\<close> is mapped to its escape
  sequence, text without reserved characters is unchanged, and the encoding of a
  concatenation is the concatenation of the encodings. The alternatives are ordered by
  descending key length, and every key is one character long.
\<close>

theorem C8_latex_encode:
  "latex_encode text = concat (map escape_char text) \<and>
   (\<forall>kv\<in>set conv. latex_encode (fst kv) = snd kv) \<and>
   ((\<forall>c\<in>set text. map_of conv [c] = None) \<longrightarrow> latex_encode text = text) \<and>
   latex_encode (text @ text') = latex_encode text @ latex_encode text' \<and>
   sorted (map (\<lambda>kv. - int (length (fst kv))) (alternatives conv)) \<and>
   (\<forall>kv\<in>set conv. length (fst kv) = 1)"
  using latex_encode_clean [of "text"] latex_encode_key conv_keys_single
  by (simp add: latex_encode_chars alternatives_def)

theorem C8_latex_encode_witness:
  "latex_encode ''A&B_C'' = ''A'' @ bslash # ''&B'' @ bslash # ''_C'' \<and>
   latex_encode ''&'' = bslash # ''&'' \<and>
   latex_encode ''abc'' = ''abc''"
proof -
  have k: "(''&'', bslash # ''&'') \<in> set conv" by (simp add: conv_def)
  have c: "\<forall>c\<in>set ''abc''. map_of conv [c] = None" by (simp add: conv_def bslash_def)
  have e: "concat (map escape_char ''A&B_C'') = ''A'' @ bslash # ''&B'' @ bslash # ''_C''"
    by (simp add: escape_char_def conv_def bslash_def)
  from C8_latex_encode [of "''A&B_C''" "[]"] e have 1: "latex_encode ''A&B_C'' = ''A'' @ bslash # ''&B'' @ bslash # ''_C''"
    by simp
  from C8_latex_encode [of "''abc''" "[]"] c have 2: "latex_encode ''abc'' = ''abc''" by blast
  from C8_latex_encode [of "''abc''" "[]"] k have 3: "latex_encode ''&'' = bslash # ''&''" by fastforce
  from 1 2 3 show ?thesis by blast
qed

text \<open>
  The claim as stated fails: the function does not recognise escaped input. Encoding an
  ampersand gives \<open>\&\<close>, and encoding that again escapes both the backslash and the
  ampersand.
\<close>

theorem C8_double_escape_counterexample:
  "latex_encode ''&'' = bslash # ''&'' \<and>
   latex_encode (latex_encode ''&'') = bslash # ''textbackslash{}'' @ bslash # ''&'' \<and>
   latex_encode (latex_encode ''&'') \<noteq> latex_encode ''&''"
  by (simp add: latex_encode_chars escape_char_def conv_def bslash_def)

subsection \<open>Claim C9\<close>

lemma length_line_email: "length_line s line = Inr s' \<Longrightarrow> email s' = email s"
  by (auto simp: length_line_def split: sum.splits)

lemma load_lengths_email: "load_lengths s rows = Inr s' \<Longrightarrow> email s' = email s"
proof (induction rows arbitrary: s)
  case Nil
  then show ?case by simp
next
  case (Cons a rows)
  then show ?case by (auto split: sum.splits dest: length_line_email)
qed

lemma assign_line_error: "assign_line s line = Inl e \<Longrightarrow> e = KeyError"
  by (auto simp: assign_line_def lookup_def split: sum.splits option.splits if_splits)

lemma assign_line_ok:
  "assign_line s line = Inr s' \<Longrightarrow>
   email s' = email s \<and> (row_action line = ''primary'' \<longrightarrow> email s (arow_email line) \<noteq> None)"
  by (auto simp: assign_line_def lookup_def split: sum.splits option.splits if_splits)

lemma load_assign_error: "load_assign s rows = Inl e \<Longrightarrow> e = KeyError"
proof (induction rows arbitrary: s)
  case Nil
  then show ?case by simp
next
  case (Cons a rows)
  then show ?case by (auto split: sum.splits dest: assign_line_error)
qed

lemma load_assign_ok:
  "load_assign s rows = Inr s' \<Longrightarrow> r \<in> set rows \<Longrightarrow> row_action r = ''primary'' \<Longrightarrow>
   email s (arow_email r) \<noteq> None"
proof (induction rows arbitrary: s)
  case Nil
  then show ?case by simp
next
  case (Cons a rows)
  from Cons.prems(1) obtain s1 where a: "assign_line s a = Inr s1"
    and r: "load_assign s1 rows = Inr s'"
    by (auto split: sum.splits)
  from assign_line_ok [OF a] have e: "email s1 = email s"
    and p: "row_action a = ''primary'' \<longrightarrow> email s (arow_email a) \<noteq> None" by simp_all
  show ?case
  proof (cases "r = a")
    case True
    with p Cons.prems(3) show ?thesis by simp
  next
    case False
    with Cons.prems(2) have "r \<in> set rows" by simp
    from Cons.IH [OF r this Cons.prems(3)] e show ?thesis by simp
  qed
qed

lemma load_assign_unknown_email:
  assumes "r \<in> set rows" and "row_action r = ''primary''" and "email s (arow_email r) = None"
  shows "load_assign s rows = Inl KeyError"
proof (cases "load_assign s rows")
  case (Inl e)
  then show ?thesis using load_assign_error by blast
next
  case (Inr s')
  from load_assign_ok [OF Inr assms(1,2)] assms(3) show ?thesis by simp
qed

text \<open>
  C9, as the code has it. When the preference table has been loaded and the assignment
  table has a \<open>primary\<close> row whose email is not in the \<open>email\<close> map, the run stops with an
  error and prints nothing after the header, which is printed before any table is read;
  when the table of lengths (if any) loads, the error is the \<open>KeyError\<close> of the lookup.
\<close>

theorem C9_unknown_email_aborts:
  assumes "load_prefs empty_tables pref_file = Inr s1"
    and "r \<in> set assign_rows" and "row_action r = ''primary''"
    and "email s1 (arow_email r) = None"
  shows "\<exists>e. run opts pref_file (Some assign_rows) lengths_file = (header opts, Some e) \<and>
     ((\<exists>s2. (case lengths_file of None \<Rightarrow> Inr s1 | Some rows \<Rightarrow> load_lengths s1 rows) = Inr s2)
        \<longrightarrow> e = KeyError)"
proof (cases "case lengths_file of None \<Rightarrow> Inr s1 | Some rows \<Rightarrow> load_lengths s1 rows")
  case (Inl e)
  with assms(1) show ?thesis by (simp add: run_def load_all_def)
next
  case (Inr s2)
  then have "email s2 = email s1"
    by (auto split: option.splits dest: load_lengths_email)
  with assms(4) have "email s2 (arow_email r) = None" by simp
  from load_assign_unknown_email [OF assms(2,3) this]
  have "load_assign s2 assign_rows = Inl KeyError" .
  with assms(1) Inr show ?thesis by (simp add: run_def load_all_def)
qed

lemma one_reviewer_loaded:
  "\<exists>s. load_prefs empty_tables rows_one_reviewer = Inr s \<and> email s ''nobody@x'' = None"
  by (simp add: rows_one_reviewer_def load_simps)

theorem C9_unknown_email_aborts_witness:
  "run opts_plain rows_one_reviewer (Some assign_unknown) None = (header opts_plain, Some KeyError)"
proof -
  from one_reviewer_loaded obtain s where
    l: "load_prefs empty_tables rows_one_reviewer = Inr s" and e: "email s ''nobody@x'' = None"
    by blast
  let ?r = "\<lparr>row_action = ''primary'', arow_paper = ''1'', arow_email = ''nobody@x''\<rparr>"
  have m: "?r \<in> set assign_unknown" by (simp add: assign_unknown_def)
  have p: "row_action ?r = ''primary''" by simp
  have e': "email s (arow_email ?r) = None" using e by simp
  from C9_unknown_email_aborts [OF l m p e', of opts_plain None] show ?thesis by auto
qed

text \<open>
  The claim as stated fails in its last part: when the run stops, the header block has
  been printed.
\<close>

theorem C9_header_printed_counterexample:
  "run opts_plain rows_one_reviewer (Some assign_unknown) None =
     ([Preamble, Text (bslash # ''colortrue''), Macros], Some KeyError) \<and>
   fst (run opts_plain rows_one_reviewer (Some assign_unknown) None) \<noteq> []"
  by (simp add: opts_plain_def rows_one_reviewer_def assign_unknown_def run_simps load_simps
      assign_line_def)

subsection \<open>Claim C10\<close>

lemma scaled_cell_skip:
  "scaled_cell s p name row = Inr row' \<Longrightarrow> prefs s p = Some pr \<Longrightarrow> pr name = Some raw \<Longrightarrow>
   raw \<le> - 100 \<Longrightarrow> row' = row"
  by (auto simp: scaled_cell_def lookup_def split: sum.splits option.splits if_splits)

lemma scaled_row_absent:
  "scaled_row s p row names = Inr row' \<Longrightarrow> prefs s p = Some pr \<Longrightarrow> pr name = Some raw \<Longrightarrow>
   raw \<le> - 100 \<Longrightarrow> row name = None \<Longrightarrow> row' name = None"
proof (induction names arbitrary: row)
  case Nil
  then show ?case by simp
next
  case (Cons a names)
  from Cons.prems(1) obtain r1 where c: "scaled_cell s p a row = Inr r1"
    and r: "scaled_row s p r1 names = Inr row'"
    by (auto split: sum.splits)
  have "r1 name = None"
  proof (cases "a = name")
    case True
    with c Cons.prems(2-4) have "r1 = row" using scaled_cell_skip by blast
    with Cons.prems(5) show ?thesis by simp
  next
    case False
    with c have "r1 name = row name" using scaled_cell_other by metis
    with Cons.prems(5) show ?thesis by simp
  qed
  from Cons.IH [OF r Cons.prems(2-4) this] show ?case .
qed

lemma prefs_scaled_absent:
  assumes "prefs_scaled s = Inr ps" and "p \<in> set (map fst (papers s))"
    and "prefs s p = Some pr" and "pr name = Some raw" and "raw \<le> - 100"
  shows "\<exists>row. ps p = Some row \<and> row name = None"
proof -
  from assms(1,2) obtain row where row: "scaled_row s p Map.empty (map fst (pc s)) = Inr row"
    and ps: "ps p = Some row"
    unfolding prefs_scaled_def using scaled_loop_stored by blast
  from scaled_row_absent [OF row assms(3,4,5)] have "row name = None" by simp
  with ps show ?thesis by blast
qed

lemma pretty_minus_hundred:
  assumes "prefs s p = Some pr" and "pr name = Some (- 100)"
    and "assigned s p = Some asg" and "prefs_type s p = Some ty" and "ty name = Some kind"
  shows "pretty s ps p name =
     Inr (bslash # ''Prate'' @ (if asg name \<noteq> None then ''A'' else '''') @ ''{-100}{'' @
          (if kind = ''C'' then ''C'' else ''-100'') @ ''}'')"
  using assms by (simp add: pretty_def lookup_def)

text \<open>
  C10. A pair whose raw score is \<open>-100\<close>, whatever its kind: the score leaves the adaptive
  bounds as they are, the pair has no scaled score, and the cell is printed with the
  shading value \<open>-100\<close>; its label is \<open>C\<close> exactly when the kind is \<open>C\<close>, and the raw value
  \<open>-100\<close> otherwise.
\<close>

theorem C10_minus_hundred:
  assumes "prefs s p = Some pr" and "pr name = Some (- 100)"
    and "p \<in> set (map fst (papers s))"
    and "assigned s p = Some asg" and "prefs_type s p = Some ty" and "ty name = Some kind"
    and "prefs_scaled s = Inr ps"
  shows "bound_step s name mm p = Inr mm \<and>
     (\<exists>row. ps p = Some row \<and> row name = None) \<and>
     pretty s ps p name =
       Inr (bslash # ''Prate'' @ (if asg name \<noteq> None then ''A'' else '''') @ ''{-100}{'' @
            (if kind = ''C'' then ''C'' else ''-100'') @ ''}'')"
proof -
  have a: "bound_step s name mm p = Inr mm"
    using assms(1,2) by (simp add: bound_step_def lookup_def)
  have b: "\<exists>row. ps p = Some row \<and> row name = None"
    using prefs_scaled_absent [OF assms(7,3,1,2)] by simp
  from a b pretty_minus_hundred [OF assms(1,2,4,5,6)] show ?thesis by blast
qed

lemma minus_hundred_tables:
  "\<exists>s. load_prefs empty_tables rows_minus_hundred = Inr s \<and>
     (\<exists>s2. compute_bounds True s = Inr s2 \<and>
        ''1'' \<in> set (map fst (papers s2)) \<and>
        (\<exists>pr. prefs s2 ''1'' = Some pr \<and> pr ''A B'' = Some (- 100)) \<and>
        (\<exists>asg. assigned s2 ''1'' = Some asg \<and> asg ''A B'' = None) \<and>
        (\<exists>ty. prefs_type s2 ''1'' = Some ty \<and> ty ''A B'' = Some ''P'') \<and>
        (\<exists>e. map_of (pc s2) ''A B'' = Some e \<and> pc_min e = Some 0 \<and> pc_max e = Some 4) \<and>
        (\<exists>ps. prefs_scaled s2 = Inr ps))"
  by (simp add: rows_minus_hundred_def load_simps scale_simps)

theorem C10_minus_hundred_witness:
  "\<exists>s s2 ps. load_prefs empty_tables rows_minus_hundred = Inr s \<and>
     compute_bounds True s = Inr s2 \<and> prefs_scaled s2 = Inr ps \<and>
     bound_step s2 ''A B'' (0, 4) ''1'' = Inr (0, 4) \<and>
     (\<exists>row. ps ''1'' = Some row \<and> row ''A B'' = None) \<and>
     pretty s2 ps ''1'' ''A B'' = Inr (bslash # ''Prate{-100}{-100}'')"
proof -
  from minus_hundred_tables obtain s s2 pr asg ty ps where
    l: "load_prefs empty_tables rows_minus_hundred = Inr s" "compute_bounds True s = Inr s2"
    and h: "prefs s2 ''1'' = Some pr" "pr ''A B'' = Some (- 100)"
      "''1'' \<in> set (map fst (papers s2))" "assigned s2 ''1'' = Some asg"
      "prefs_type s2 ''1'' = Some ty" "ty ''A B'' = Some ''P''" "prefs_scaled s2 = Inr ps"
    and a: "asg ''A B'' = None"
    by blast
  from C10_minus_hundred [OF h, of "(0, 4)"] a l h(7) show ?thesis by auto
qed

end
